theory Spec2Isabelle
  imports Main
begin

chapter \<open>The components as functions on explicit state\<close>

section \<open>JavaScript values used by the components\<close>

text \<open>
  A JavaScript string is a sequence of UTF-16 code units; \<open>length\<close> and
  \<open>substring\<close> count code units. A code unit is modelled by its number.
\<close>

type_synonym jsstring = "nat list"

definition js :: "string \<Rightarrow> jsstring" where
  "js s = map of_char s"

text \<open>
  Fields typed \<open>string\<close> in the source that are initialised with \<open>null\<close>, left out
  (\<open>undefined\<close>) or filled from an optional property.
\<close>

datatype jsval = Undefined | Null | Str jsstring

text \<open>Truthiness, as in \<open>if (v)\<close>, \<open>!v\<close>, \<open>Boolean(v)\<close> and \<open>a || b\<close>.\<close>

fun truthy :: "jsval \<Rightarrow> bool" where
  "truthy (Str s) = (s \<noteq> [])"
| "truthy Undefined = False"
| "truthy Null = False"

text \<open>
  The loose comparison \<open>a != b\<close> on such values: \<open>null\<close> and \<open>undefined\<close> are
  equal to each other and to nothing else, two strings are compared by content.
\<close>

fun loose_neq :: "jsval \<Rightarrow> jsval \<Rightarrow> bool" where
  "loose_neq (Str a) (Str b) = (a \<noteq> b)"
| "loose_neq (Str a) Undefined = True"
| "loose_neq (Str a) Null = True"
| "loose_neq Undefined (Str b) = True"
| "loose_neq Null (Str b) = True"
| "loose_neq Undefined Undefined = False"
| "loose_neq Undefined Null = False"
| "loose_neq Null Undefined = False"
| "loose_neq Null Null = False"

section \<open>RoomDirectory: room cells\<close>

definition MAX_NAME_LENGTH :: nat where
  "MAX_NAME_LENGTH = 80"

definition MAX_TOPIC_LENGTH :: nat where
  "MAX_TOPIC_LENGTH = 800"

text \<open>The fields of \<open>IPublicRoomsChunkRoom\<close> that \<open>createRoomCells\<close> reads for its texts.\<close>

record IPublicRoomsChunkRoom =
  room_id :: jsstring
  room_name :: jsval
  room_topic :: jsval

text \<open>
  What \<open>createRoomCells\<close> puts into the cell: the text of the
  \<open>mx_RoomDirectory_name\<close> element and the argument of \<open>linkifyAndSanitizeHtml\<close>.
\<close>

record room_cell =
  cell_name :: jsstring
  cell_topic :: jsstring

text \<open>
  \<open>room.name || getDisplayAliasForRoom(room) || _t('Unnamed room')\<close>: the first truthy
  operand, else the last one. \<open>getDisplayAliasForRoom\<close> calls
  \<open>getDisplayAliasForAliasSet\<close> of another module and \<open>_t\<close> is the translation
  table, so the alias found and the translated text are parameters.
\<close>

fun or_string :: "jsval \<Rightarrow> jsstring \<Rightarrow> jsstring" where
  "or_string (Str s) d = (if s \<noteq> [] then s else d)"
| "or_string Undefined d = d"
| "or_string Null d = d"

definition createRoomCells :: "jsval \<Rightarrow> jsstring \<Rightarrow> IPublicRoomsChunkRoom \<Rightarrow> room_cell" where
  "createRoomCells displayAlias unnamed room =
     (let name0 = or_string (room_name room) (or_string displayAlias unnamed);
          name1 = (if length name0 > MAX_NAME_LENGTH
                   then take MAX_NAME_LENGTH name0 @ js ''...'' else name0);
          topic0 = or_string (room_topic room) [];
          topic1 = (if length topic0 > MAX_TOPIC_LENGTH
                    then take MAX_TOPIC_LENGTH topic0 @ js ''...'' else topic0)
      in \<lparr>cell_name = name1, cell_topic = topic1\<rparr>)"

section \<open>RoomDirectory: state, directory requests and their responses\<close>

definition LAST_SERVER_KEY :: jsstring where
  "LAST_SERVER_KEY = js ''mx_last_room_directory_server''"

definition LAST_INSTANCE_KEY :: jsstring where
  "LAST_INSTANCE_KEY = js ''mx_last_room_directory_instance''"

text \<open>
  The options object handed to \<open>publicRooms\<close>. An optional property that is not set
  is \<open>Undefined\<close> (\<open>False\<close> for \<open>include_all_networks\<close>); \<open>generic_search_term\<close>
  stands for \<open>filter.generic_search_term\<close>.
\<close>

record IRoomDirectoryOptions =
  limit :: nat
  server :: jsval
  include_all_networks :: bool
  third_party_instance_id :: jsval
  since :: jsval
  generic_search_term :: jsval

text \<open>
  A request in flight: its options and the three constants \<open>filterString\<close>,
  \<open>roomServer\<close> and \<open>nextBatch\<close> that the closures of \<open>getMoreRooms\<close> captured
  when it was sent.
\<close>

record request =
  opts :: IRoomDirectoryOptions
  sentFilterString :: jsstring
  sentRoomServer :: jsval
  sentNextBatch :: jsval

record IPublicRoomsResponse =
  chunk :: "IPublicRoomsChunkRoom list option"
  next_batch :: jsval

text \<open>The promise a handler returns: already resolved, or waiting for a request.\<close>

datatype promise = Resolved bool | Awaiting request

text \<open>
  The component together with what it acts on. First the React state (\<open>IState\<close>),
  then the instance fields, then the environment: whether \<open>MatrixClientPeg.get()\<close>
  yields a client, the homeserver name, the constant \<open>ALL_ROOMS\<close> of the network
  dropdown, \<open>localStorage\<close>, the requests handed to \<open>publicRooms\<close> so far, and the
  browser's timers (a clock in milliseconds, the next timer id, and the pending
  timers of this component with the time each is due). \<open>refreshCalls\<close> counts the
  calls of \<open>refreshRoomList\<close>; it is instrumentation, the source has no such field.
  \<open>setState\<close> is applied at once: no handler below reads a state field between
  a \<open>setState\<close> that changes it and the point where React has applied it.
\<close>

record world =
  publicRooms :: "IPublicRoomsChunkRoom list"
  loading :: bool
  protocolsLoading :: bool
  error :: jsval
  instanceId :: jsval
  roomServer :: jsval
  filterString :: jsstring
  unmounted :: bool
  nextBatch :: jsval
  filterTimeout :: "nat option"
  client :: bool
  homeserverName :: jsstring
  ALL_ROOMS :: jsstring
  localStorage :: "jsstring \<rightharpoonup> jsstring"
  requests :: "request list"
  clock :: nat
  nextTimer :: nat
  pendingTimers :: "(nat \<times> nat) list"
  refreshCalls :: nat

definition getMoreRooms :: "world \<Rightarrow> world \<times> promise" where
  "getMoreRooms w =
     (if \<not> client w then (w, Resolved False)
      else
        let w1 = w\<lparr>loading := True\<rparr>;
            o1 = \<lparr>limit = 20,
                  server = (if loose_neq (roomServer w1) (Str (homeserverName w1))
                            then roomServer w1 else Undefined),
                  include_all_networks = (instanceId w1 = Str (ALL_ROOMS w1)),
                  third_party_instance_id =
                    (if instanceId w1 \<noteq> Str (ALL_ROOMS w1) \<and> truthy (instanceId w1)
                     then instanceId w1 else Undefined),
                  since = (if truthy (nextBatch w1) then nextBatch w1 else Undefined),
                  generic_search_term =
                    (if filterString w1 \<noteq> [] then Str (filterString w1) else Undefined)\<rparr>;
            r = \<lparr>opts = o1, sentFilterString = filterString w1,
                 sentRoomServer = roomServer w1, sentNextBatch = nextBatch w1\<rparr>
        in (w1\<lparr>requests := requests w1 @ [r]\<rparr>, Awaiting r))"

text \<open>
  The test both callbacks of the request start with:
  \<open>filterString != this.state.filterString || roomServer != this.state.roomServer ||
  nextBatch != this.nextBatch\<close>. The filter string is a string on both sides.
\<close>

definition changedSince :: "request \<Rightarrow> world \<Rightarrow> bool" where
  "changedSince r w \<longleftrightarrow>
     sentFilterString r \<noteq> filterString w \<or>
     loose_neq (sentRoomServer r) (roomServer w) \<or>
     loose_neq (sentNextBatch r) (nextBatch w)"

text \<open>The fulfilment callback of \<open>publicRooms(opts)\<close>, with the value it returns.\<close>

definition publicRoomsFulfilled :: "request \<Rightarrow> IPublicRoomsResponse \<Rightarrow> world \<Rightarrow> world \<times> bool" where
  "publicRoomsFulfilled r data w =
     (if changedSince r w then (w, False)
      else if unmounted w then (w, False)
      else (w\<lparr>nextBatch := next_batch data,
               publicRooms := publicRooms w @ (case chunk data of None \<Rightarrow> [] | Some c \<Rightarrow> c),
               loading := False\<rparr>,
            truthy (next_batch data)))"

text \<open>
  The rejection callback; \<open>None\<close> is the \<open>undefined\<close> it returns when it falls off
  its end. \<open>err\<close> is an object whose \<open>message\<close> is given; the two translated texts
  are parameters. The condition of the conditional expression is the whole
  concatenation \<open>_t(...) + (err && err.message)\<close>.
\<close>

fun toString :: "jsval \<Rightarrow> jsstring" where
  "toString (Str s) = s"
| "toString Undefined = js ''undefined''"
| "toString Null = js ''null''"

definition publicRoomsRejected ::
    "jsstring \<Rightarrow> jsstring \<Rightarrow> request \<Rightarrow> jsval \<Rightarrow> world \<Rightarrow> world \<times> bool option" where
  "publicRoomsRejected failedText unavailableText r message w =
     (if changedSince r w then (w, Some False)
      else if unmounted w then (w, Some False)
      else (w\<lparr>loading := False,
               error := (if failedText @ toString message \<noteq> [] then message
                         else Str unavailableText)\<rparr>,
            None))"

definition refreshRoomList :: "world \<Rightarrow> world" where
  "refreshRoomList w =
     fst (getMoreRooms (w\<lparr>nextBatch := Null, publicRooms := [], loading := True,
                          refreshCalls := Suc (refreshCalls w)\<rparr>))"




section \<open>RoomDirectory: the debounced filter\<close>

text \<open>
  \<open>setTimeout\<close> returns a fresh timer id and makes the timer pending, due after the
  delay; \<open>clearTimeout\<close> removes the pending timer of that id, if there is one.
\<close>

definition setTimeout :: "nat \<Rightarrow> world \<Rightarrow> nat \<times> world" where
  "setTimeout delay w =
     (nextTimer w,
      w\<lparr>nextTimer := Suc (nextTimer w),
        pendingTimers := pendingTimers w @ [(nextTimer w, clock w + delay)]\<rparr>)"

definition clearTimeout :: "nat \<Rightarrow> world \<Rightarrow> world" where
  "clearTimeout i w = w\<lparr>pendingTimers := filter (\<lambda>p. fst p \<noteq> i) (pendingTimers w)\<rparr>"

text \<open>White space as \<open>String.prototype.trim\<close> and the pattern \<open>\s\<close> understand it.\<close>

definition isWhiteSpace :: "nat \<Rightarrow> bool" where
  "isWhiteSpace c \<longleftrightarrow>
     (9 \<le> c \<and> c \<le> 13) \<or> c = 32 \<or> c = 160 \<or> c = 5760 \<or> (8192 \<le> c \<and> c \<le> 8202) \<or>
     c = 8232 \<or> c = 8233 \<or> c = 8239 \<or> c = 8287 \<or> c = 12288 \<or> c = 65279"

definition trim :: "jsstring \<Rightarrow> jsstring" where
  "trim s = rev (dropWhile isWhiteSpace (rev (dropWhile isWhiteSpace s)))"

text \<open>The callback given to \<open>setTimeout\<close> in \<open>onFilterChange\<close>.\<close>

definition filterTimeoutCallback :: "world \<Rightarrow> world" where
  "filterTimeoutCallback w = refreshRoomList (w\<lparr>filterTimeout := None\<rparr>)"

text \<open>
  \<open>filterTimeout\<close> is \<open>None\<close> while the field is \<open>undefined\<close> or \<open>null\<close>; a timer id
  is a number, truthy unless it is 0.
\<close>

definition onFilterChange :: "jsval \<Rightarrow> world \<Rightarrow> world" where
  "onFilterChange alias w =
     (let w1 = w\<lparr>filterString := (case alias of Str s \<Rightarrow> trim s | _ \<Rightarrow> [])\<rparr>;
          w2 = (case filterTimeout w1 of
                  Some i \<Rightarrow> if i \<noteq> 0 then clearTimeout i w1 else w1
                | None \<Rightarrow> w1);
          (i, w3) = setTimeout 700 w2
      in w3\<lparr>filterTimeout := Some i\<rparr>)"

text \<open>
  What happens to the component between renders: the search box calls
  \<open>onFilterChange\<close>, time passes, or the browser runs the callback of a pending
  timer that is due (nothing happens when none is due).
\<close>

datatype event = FilterChange jsval | Tick nat | TimerFires

definition timerFires :: "world \<Rightarrow> world" where
  "timerFires w =
     (case filter (\<lambda>p. snd p \<le> clock w) (pendingTimers w) of
        [] \<Rightarrow> w
      | p # _ \<Rightarrow> filterTimeoutCallback (clearTimeout (fst p) w))"

fun exec :: "event \<Rightarrow> world \<Rightarrow> world" where
  "exec (FilterChange alias) w = onFilterChange alias w"
| "exec (Tick d) w = w\<lparr>clock := clock w + d\<rparr>"
| "exec TimerFires w = timerFires w"

definition run :: "event list \<Rightarrow> world \<Rightarrow> world" where
  "run es w = fold exec es w"

text \<open>
  A burst of keystrokes: every stretch without a call of \<open>onFilterChange\<close> lasts
  less than 700 ms. The first argument is the time since the last call.
\<close>

fun withinBurst :: "nat \<Rightarrow> event list \<Rightarrow> bool" where
  "withinBurst t [] = True"
| "withinBurst t (FilterChange alias # es) = withinBurst 0 es"
| "withinBurst t (Tick d # es) = (t + d < 700 \<and> withinBurst (t + d) es)"
| "withinBurst t (TimerFires # es) = withinBurst t es"

fun noFilterChange :: "event list \<Rightarrow> bool" where
  "noFilterChange [] = True"
| "noFilterChange (FilterChange alias # es) = False"
| "noFilterChange (Tick d # es) = noFilterChange es"
| "noFilterChange (TimerFires # es) = noFilterChange es"

text \<open>
  The state of the timers when the component is created: none pending, no id
  stored, and the ids the browser hands out are positive.
\<close>

definition timersIdle :: "world \<Rightarrow> bool" where
  "timersIdle w \<longleftrightarrow> pendingTimers w = [] \<and> filterTimeout w = None \<and> 0 < nextTimer w"

section \<open>RoomDirectory: fields of a third-party location\<close>

record IProtocol =
  location_fields :: "jsstring list option"

text \<open>
  \<open>instance.fields\<close> with its own properties, as the server sent them. The
  lookup \<open>instance.fields[f]\<close> of the source also finds what the object inherits
  from \<open>Object.prototype\<close>; a required field named like one of those members
  (\<open>constructor\<close>, \<open>toString\<close>, ...) is outside this model.
\<close>

record IInstance =
  instance_fields :: "jsstring \<rightharpoonup> jsstring"

text \<open>
  The loop over all but the last required field: \<open>None\<close> is the early
  \<open>return null\<close>, taken when the instance has no value for a field.
\<close>

fun copyFields ::
    "(jsstring \<rightharpoonup> jsstring) \<Rightarrow> jsstring list \<Rightarrow> (jsstring \<rightharpoonup> jsstring)
     \<Rightarrow> (jsstring \<rightharpoonup> jsstring) option" where
  "copyFields src [] acc = Some acc"
| "copyFields src (f # fs) acc =
     (case src f of None \<Rightarrow> None | Some v \<Rightarrow> copyFields src fs (acc(f \<mapsto> v)))"

text \<open>
  \<open>!requiredFields\<close> holds for \<open>null\<close> and \<open>undefined\<close> only: an empty array is
  truthy. For an empty array \<open>requiredFields[requiredFields.length - 1]\<close> is
  \<open>undefined\<close>, and as a property key that is the string \<open>undefined\<close>.
\<close>

definition getFieldsForThirdPartyLocation ::
    "jsstring \<Rightarrow> IProtocol \<Rightarrow> IInstance \<Rightarrow> (jsstring \<rightharpoonup> jsstring) option" where
  "getFieldsForThirdPartyLocation userInput protocol inst =
     (case location_fields protocol of
        None \<Rightarrow> None
      | Some requiredFields \<Rightarrow>
          (case copyFields (instance_fields inst) (butlast requiredFields) Map.empty of
             None \<Rightarrow> None
           | Some fs \<Rightarrow>
               Some (fs((if requiredFields = [] then js ''undefined'' else last requiredFields)
                        \<mapsto> userInput))))"

section \<open>VideoFeed\<close>

datatype CallFeedEvent = NewStream | MuteStateChanged

text \<open>The two bound methods the component registers as listeners.\<close>

datatype listener = onNewStream | onMuteStateChanged

datatype SDPStreamMetadataPurpose = Usermedia | Screenshare

text \<open>
  A call feed as the component sees it: its purpose, its stream (by reference),
  its mute state, the listeners registered on it in the order they were added,
  and whether volume activity is measured.
\<close>

record CallFeed =
  purpose :: SDPStreamMetadataPurpose
  stream :: nat
  audioMuted :: bool
  videoMuted :: bool
  listeners :: "(CallFeedEvent \<times> listener) list"
  measuringVolumeActivity :: bool

text \<open>
  The video element: the properties the component assigns, and whether the
  last call on it was \<open>play()\<close> rather than \<open>pause()\<close>.
\<close>

record HTMLVideoElement =
  muted :: bool
  srcObject :: "nat option"
  autoplay :: bool
  src :: jsval
  playRequested :: bool

text \<open>
  Feeds are objects compared by reference (\<open>oldFeed === newFeed\<close>), so they live in
  a store and the component holds the reference \<open>props.feed\<close>.
\<close>

record VideoFeed =
  feeds :: "nat \<Rightarrow> CallFeed"
  props_feed :: nat
  state_audioMuted :: bool
  state_videoMuted :: bool
  element :: "HTMLVideoElement option"

definition addListener :: "CallFeedEvent \<Rightarrow> listener \<Rightarrow> CallFeed \<Rightarrow> CallFeed" where
  "addListener ev l f = f\<lparr>listeners := listeners f @ [(ev, l)]\<rparr>"

text \<open>An emitter removes at most one instance of the listener, the one added last.\<close>

definition removeListener :: "CallFeedEvent \<Rightarrow> listener \<Rightarrow> CallFeed \<Rightarrow> CallFeed" where
  "removeListener ev l f = f\<lparr>listeners := rev (remove1 (ev, l) (rev (listeners f)))\<rparr>"

definition measureVolumeActivity :: "bool \<Rightarrow> CallFeed \<Rightarrow> CallFeed" where
  "measureVolumeActivity enabled f = f\<lparr>measuringVolumeActivity := enabled\<rparr>"

definition onFeed :: "nat \<Rightarrow> (CallFeed \<Rightarrow> CallFeed) \<Rightarrow> VideoFeed \<Rightarrow> VideoFeed" where
  "onFeed i g v = v\<lparr>feeds := (feeds v)(i := g (feeds v i))\<rparr>"

definition playMedia :: "VideoFeed \<Rightarrow> VideoFeed" where
  "playMedia v =
     (case element v of
        None \<Rightarrow> v
      | Some e \<Rightarrow>
          v\<lparr>element := Some (e\<lparr>muted := True,
                                 srcObject := Some (stream (feeds v (props_feed v))),
                                 autoplay := True, playRequested := True\<rparr>)\<rparr>)"

definition stopMedia :: "VideoFeed \<Rightarrow> VideoFeed" where
  "stopMedia v =
     (case element v of
        None \<Rightarrow> v
      | Some e \<Rightarrow> v\<lparr>element := Some (e\<lparr>playRequested := False, src := Null\<rparr>)\<rparr>)"

text \<open>
  \<open>updateFeed(oldFeed, newFeed)\<close>. Both branches of the source act on
  \<open>this.props.feed\<close>; the parameters are only tested.
\<close>

definition updateFeed :: "nat option \<Rightarrow> nat option \<Rightarrow> VideoFeed \<Rightarrow> VideoFeed" where
  "updateFeed oldFeed newFeed v =
     (if oldFeed = newFeed then v
      else
        let v1 = (if oldFeed \<noteq> None
                  then stopMedia
                    (onFeed (props_feed v)
                       (\<lambda>f. let f1 = removeListener NewStream onNewStream f;
                                f2 = removeListener MuteStateChanged onMuteStateChanged f1
                            in if purpose f2 = Usermedia then measureVolumeActivity False f2
                               else f2) v)
                  else v)
        in if newFeed \<noteq> None
           then playMedia
             (onFeed (props_feed v1)
                (\<lambda>f. let f1 = addListener NewStream onNewStream f;
                         f2 = addListener MuteStateChanged onMuteStateChanged f1
                     in if purpose f2 = Usermedia then measureVolumeActivity True f2
                        else f2) v1)
           else v1)"

definition componentDidMount :: "VideoFeed \<Rightarrow> VideoFeed" where
  "componentDidMount v = playMedia (updateFeed None (Some (props_feed v)) v)"

definition componentWillUnmount :: "VideoFeed \<Rightarrow> VideoFeed" where
  "componentWillUnmount v = updateFeed (Some (props_feed v)) None v"

definition componentDidUpdate :: "nat \<Rightarrow> bool \<Rightarrow> VideoFeed \<Rightarrow> VideoFeed" where
  "componentDidUpdate prevFeed prevVideoMuted v =
     (let v1 = updateFeed (Some prevFeed) (Some (props_feed v)) v
      in if prevVideoMuted \<noteq> state_videoMuted v1 \<or>
            stream (feeds v1 prevFeed) \<noteq> stream (feeds v1 (props_feed v1))
         then playMedia v1 else v1)"

definition getDerivedStateFromProps :: "VideoFeed \<Rightarrow> VideoFeed" where
  "getDerivedStateFromProps v =
     v\<lparr>state_audioMuted := audioMuted (feeds v (props_feed v)),
       state_videoMuted := videoMuted (feeds v (props_feed v))\<rparr>"

text \<open>
  The parent renders the component with another feed: React replaces the props,
  derives the state and calls \<open>componentDidUpdate\<close> with the previous props and state.
\<close>

definition receiveFeed :: "nat \<Rightarrow> VideoFeed \<Rightarrow> VideoFeed" where
  "receiveFeed newFeed v =
     componentDidUpdate (props_feed v) (state_videoMuted v)
       (getDerivedStateFromProps (v\<lparr>props_feed := newFeed\<rparr>))"

definition listenerPair :: "(CallFeedEvent \<times> listener) list" where
  "listenerPair = [(NewStream, onNewStream), (MuteStateChanged, onMuteStateChanged)]"

section \<open>SpaceCreateMenu\<close>

text \<open>
  \<open>name.trim().toLowerCase().replace(/\s+/g, "-").replace(/[^a-z0-9_-]+/gi, "")\<close>.
  The first replacement puts one hyphen for each maximal run of white space.
\<close>

function replaceWhitespaceRuns :: "jsstring \<Rightarrow> jsstring" where
  "replaceWhitespaceRuns [] = []"
| "replaceWhitespaceRuns (c # cs) =
     (if isWhiteSpace c then 45 # replaceWhitespaceRuns (dropWhile isWhiteSpace cs)
      else c # replaceWhitespaceRuns cs)"
  by pat_completeness auto
termination
  by (relation "measure length") (auto simp: length_dropWhile_le le_imp_less_Suc)

definition isAsciiUpper :: "nat \<Rightarrow> bool" where
  "isAsciiUpper c \<longleftrightarrow> 65 \<le> c \<and> c \<le> 90"

text \<open>The class \<open>[a-z0-9_-]\<close>.\<close>

definition isAliasChar :: "nat \<Rightarrow> bool" where
  "isAliasChar c \<longleftrightarrow> (97 \<le> c \<and> c \<le> 122) \<or> (48 \<le> c \<and> c \<le> 57) \<or> c = 95 \<or> c = 45"

text \<open>
  The second pattern has the flag \<open>i\<close> and not the flag \<open>u\<close>: a code unit is
  outside the negated class when its canonical form is that of a member, which
  adds the letters A to Z and no code unit beyond ASCII. Replacing every run of
  matches by the empty string keeps exactly the other code units.
\<close>

definition keptByPattern :: "nat \<Rightarrow> bool" where
  "keptByPattern c \<longleftrightarrow> isAliasChar c \<or> isAsciiUpper c"

text \<open>
  \<open>String.prototype.toLowerCase\<close> follows the Unicode tables; it is a parameter.
\<close>

definition localpartOf :: "(jsstring \<Rightarrow> jsstring) \<Rightarrow> jsstring \<Rightarrow> jsstring" where
  "localpartOf toLowerCase nm =
     filter keptByPattern (replaceWhitespaceRuns (toLowerCase (trim nm)))"

definition nameToAlias :: "(jsstring \<Rightarrow> jsstring) \<Rightarrow> jsstring \<Rightarrow> jsstring \<Rightarrow> jsstring" where
  "nameToAlias toLowerCase nm domain =
     js ''#'' @ localpartOf toLowerCase nm @ js '':'' @ domain"

text \<open>Lower-casing of the letters A to Z alone, for use where a name is ASCII.\<close>

definition asciiLower :: "jsstring \<Rightarrow> jsstring" where
  "asciiLower s = map (\<lambda>c. if isAsciiUpper c then c + 32 else c) s"

datatype Visibility = Public | Private

text \<open>
  \<open>onSpaceCreateClick\<close> is an async function: a call runs up to its next
  \<open>await\<close> and resumes when the awaited promise settles. A call in progress is
  recorded with the \<open>await\<close> it is suspended at and the \<open>visibility\<close> its closure
  holds. A call ends by returning or by throwing; nothing catches what it throws
  outside the \<open>try\<close> around \<open>createRoom\<close>.
\<close>

datatype stage =
    AwaitNameValidation | AwaitAliasValidation | AwaitCreateRoom | Returned | Thrown

fun finished :: "stage \<Rightarrow> bool" where
  "finished Returned = True"
| "finished Thrown = True"
| "finished AwaitNameValidation = False"
| "finished AwaitAliasValidation = False"
| "finished AwaitCreateRoom = False"

record invocation =
  stage :: stage
  closureVisibility :: "Visibility option"

text \<open>What a call does to the rest of the program, in the order of the source.\<close>

datatype effect =
    PreventDefault | SetBusy bool | ValidateName | ValidateAlias | FocusName | FocusAlias
  | CreateRoom | OnFinished | ConsoleError

text \<open>
  The menu: the state hooks \<open>visibility\<close> and \<open>busy\<close>, the calls of
  \<open>onSpaceCreateClick\<close> made so far, and the log of their effects. A click runs
  the handler of the latest render, so it reads the current \<open>busy\<close>: React renders
  again after each \<open>setBusy\<close> before it delivers the next event.
\<close>

record SpaceCreateMenu =
  visibility :: "Visibility option"
  busy :: bool
  invocations :: "invocation list"
  effects :: "effect list"

text \<open>
  The two refs follow the render: \<open>spaceNameField.current\<close> is the name field
  while the form is rendered, which is while \<open>visibility\<close> is not \<open>null\<close>, and
  \<open>spaceAliasField.current\<close> is the alias field while \<open>visibility\<close> is \<open>Public\<close>.
  Otherwise the ref holds no component and a method call on it throws a
  \<open>TypeError\<close>.
\<close>

definition nameFieldMounted :: "SpaceCreateMenu \<Rightarrow> bool" where
  "nameFieldMounted m \<longleftrightarrow> visibility m \<noteq> None"

definition aliasFieldMounted :: "SpaceCreateMenu \<Rightarrow> bool" where
  "aliasFieldMounted m \<longleftrightarrow> visibility m = Some Public"

text \<open>Call \<open>i\<close> ends with an exception: its \<open>busy\<close> stays as it is.\<close>

definition throwTypeError :: "nat \<Rightarrow> SpaceCreateMenu \<Rightarrow> SpaceCreateMenu" where
  "throwTypeError i m =
     m\<lparr>invocations := (invocations m)[i := (invocations m ! i)\<lparr>stage := Thrown\<rparr>]\<rparr>"

definition onSpaceCreateClick :: "SpaceCreateMenu \<Rightarrow> SpaceCreateMenu" where
  "onSpaceCreateClick m =
     (if busy m then m\<lparr>effects := effects m @ [PreventDefault]\<rparr>
      else if \<not> nameFieldMounted m then
        m\<lparr>busy := True,
          invocations := invocations m @ [\<lparr>stage = Thrown, closureVisibility = visibility m\<rparr>],
          effects := effects m @ [PreventDefault, SetBusy True]\<rparr>
      else m\<lparr>busy := True,
             invocations := invocations m @
               [\<lparr>stage = AwaitNameValidation, closureVisibility = visibility m\<rparr>],
             effects := effects m @ [PreventDefault, SetBusy True, ValidateName]\<rparr>)"

text \<open>The call of \<open>createRoom\<close> that both successful validations lead to.\<close>

definition callCreateRoom :: "nat \<Rightarrow> SpaceCreateMenu \<Rightarrow> SpaceCreateMenu" where
  "callCreateRoom i m =
     m\<lparr>invocations := (invocations m)[i := (invocations m ! i)\<lparr>stage := AwaitCreateRoom\<rparr>],
       effects := effects m @ [CreateRoom]\<rparr>"

text \<open>
  Call \<open>i\<close> resumes with the result of the name validation. On a failure
  \<open>spaceNameField.current.focus()\<close> comes first; on a success with a public
  visibility in the closure, \<open>spaceAliasField.current.validate(...)\<close>.
\<close>

definition nameValidated :: "nat \<Rightarrow> bool \<Rightarrow> SpaceCreateMenu \<Rightarrow> SpaceCreateMenu" where
  "nameValidated i ok m =
     (if i < length (invocations m) \<and> stage (invocations m ! i) = AwaitNameValidation then
        if \<not> ok then
          if \<not> nameFieldMounted m then throwTypeError i m
          else
            m\<lparr>busy := False,
              invocations := (invocations m)[i := (invocations m ! i)\<lparr>stage := Returned\<rparr>],
              effects := effects m @ [FocusName, ValidateName, SetBusy False]\<rparr>
        else if closureVisibility (invocations m ! i) = Some Public then
          if \<not> aliasFieldMounted m then throwTypeError i m
          else
            m\<lparr>invocations :=
                (invocations m)[i := (invocations m ! i)\<lparr>stage := AwaitAliasValidation\<rparr>],
              effects := effects m @ [ValidateAlias]\<rparr>
        else callCreateRoom i m
      else m)"

text \<open>
  Call \<open>i\<close> resumes with the result of the alias validation. On a failure
  \<open>spaceAliasField.current.focus()\<close> comes before \<open>setBusy(false)\<close>.
\<close>

definition aliasValidated :: "nat \<Rightarrow> bool \<Rightarrow> SpaceCreateMenu \<Rightarrow> SpaceCreateMenu" where
  "aliasValidated i ok m =
     (if i < length (invocations m) \<and> stage (invocations m ! i) = AwaitAliasValidation then
        if \<not> ok then
          if \<not> aliasFieldMounted m then throwTypeError i m
          else
            m\<lparr>busy := False,
              invocations := (invocations m)[i := (invocations m ! i)\<lparr>stage := Returned\<rparr>],
              effects := effects m @ [FocusAlias, ValidateAlias, SetBusy False]\<rparr>
        else callCreateRoom i m
      else m)"

text \<open>Call \<open>i\<close> resumes when \<open>createRoom\<close> has resolved (\<open>ok\<close>) or thrown.\<close>

definition createRoomSettled :: "nat \<Rightarrow> bool \<Rightarrow> SpaceCreateMenu \<Rightarrow> SpaceCreateMenu" where
  "createRoomSettled i ok m =
     (if i < length (invocations m) \<and> stage (invocations m ! i) = AwaitCreateRoom then
        m\<lparr>invocations := (invocations m)[i := (invocations m ! i)\<lparr>stage := Returned\<rparr>],
          effects := effects m @ [if ok then OnFinished else ConsoleError]\<rparr>
      else m)"

text \<open>
  What happens to the menu between renders. A click reaches the handler only
  through the form or the button below it, which are rendered while
  \<open>visibility\<close> is not \<open>null\<close>. \<open>SetVisibility\<close> stands for the two type buttons and
  for "Go back", which is not disabled while \<open>busy\<close>.
\<close>

datatype menu_event =
    Click | SetVisibility "Visibility option"
  | NameValidated nat bool | AliasValidated nat bool | CreateRoomSettled nat bool

fun menuStep :: "menu_event \<Rightarrow> SpaceCreateMenu \<Rightarrow> SpaceCreateMenu" where
  "menuStep Click m = (if visibility m = None then m else onSpaceCreateClick m)"
| "menuStep (SetVisibility v) m = m\<lparr>visibility := v\<rparr>"
| "menuStep (NameValidated i ok) m = nameValidated i ok m"
| "menuStep (AliasValidated i ok) m = aliasValidated i ok m"
| "menuStep (CreateRoomSettled i ok) m = createRoomSettled i ok m"

definition menuRun :: "menu_event list \<Rightarrow> SpaceCreateMenu \<Rightarrow> SpaceCreateMenu" where
  "menuRun es m = fold menuStep es m"

text \<open>The menu as \<open>useState\<close> initialises it.\<close>

definition initialMenu :: SpaceCreateMenu where
  "initialMenu = \<lparr>visibility = None, busy = False, invocations = [], effects = []\<rparr>"

definition createRoomInFlight :: "SpaceCreateMenu \<Rightarrow> nat" where
  "createRoomInFlight m = length (filter (\<lambda>c. stage c = AwaitCreateRoom) (invocations m))"

definition inProgress :: "SpaceCreateMenu \<Rightarrow> nat" where
  "inProgress m = length (filter (\<lambda>c. \<not> finished (stage c)) (invocations m))"

text \<open>
  The user chooses a public space and submits; the name is valid, and while the
  alias is being validated the user presses "Go back"; then the alias
  validation fails.
\<close>

definition goBackDuringAliasValidation :: "menu_event list" where
  "goBackDuringAliasValidation =
     [SetVisibility (Some Public), Click, NameValidated 0 True, SetVisibility None,
      AliasValidated 0 False]"

section \<open>LeftPanelLiveShareWarning\<close>

datatype warning_child = LiveLocationIcon nat | WarningText jsstring

record warning_div =
  className :: jsstring
  title :: jsval
  child :: warning_child

text \<open>
  The first argument is the translated text
  \<open>_t('You are sharing your live location')\<close>, the second the value the hook
  \<open>useEventEmitterState\<close> returns for \<open>OwnBeaconStore.instance.isMonitoringLiveLocation\<close>,
  the third the optional prop. \<open>None\<close> is the \<open>null\<close> the component returns.
\<close>

definition LeftPanelLiveShareWarning ::
    "jsstring \<Rightarrow> bool \<Rightarrow> bool option \<Rightarrow> warning_div option" where
  "LeftPanelLiveShareWarning sharingText isMonitoringLiveLocation isMinimized =
     (if \<not> isMonitoringLiveLocation then None
      else Some
        \<lparr>className = js ''mx_LeftPanelLiveShareWarning'' @
           (if isMinimized = Some True then js '' mx_LeftPanelLiveShareWarning__minimized''
            else []),
         title = (if isMinimized = Some True then Str sharingText else Undefined),
         child = (if isMinimized = Some True then LiveLocationIcon 10
                  else WarningText sharingText)\<rparr>)"

section \<open>RoomDirectory: the component after its constructor\<close>

definition getItem :: "(jsstring \<rightharpoonup> jsstring) \<Rightarrow> jsstring \<Rightarrow> jsval" where
  "getItem ls k = (case ls k of None \<Rightarrow> Null | Some v \<Rightarrow> Str v)"

text \<open>
  The state the constructor assigns and the initial values of the instance
  fields, in an environment with the given client, homeserver name, value of
  \<open>ALL_ROOMS\<close> and \<open>localStorage\<close>; the last argument is \<open>props.initialText\<close>.
  The clock starts at 0 and the first timer id is 1.
\<close>

definition initialWorld ::
    "bool \<Rightarrow> jsstring \<Rightarrow> jsstring \<Rightarrow> (jsstring \<rightharpoonup> jsstring) \<Rightarrow> jsval \<Rightarrow> world" where
  "initialWorld hasClient hs allRooms ls initialText =
     \<lparr>publicRooms = [], loading = True, protocolsLoading = hasClient, error = Null,
      instanceId = getItem ls LAST_INSTANCE_KEY, roomServer = getItem ls LAST_SERVER_KEY,
      filterString = or_string initialText [], unmounted = False, nextBatch = Null,
      filterTimeout = None, client = hasClient, homeserverName = hs, ALL_ROOMS = allRooms,
      localStorage = ls, requests = [], clock = 0, nextTimer = 1, pendingTimers = [],
      refreshCalls = 0\<rparr>"

text \<open>A directory on the homeserver \<open>example.org\<close> with nothing stored, and a room.\<close>

definition exampleDirectory :: world where
  "exampleDirectory = initialWorld True (js ''example.org'') (js ''_all'') Map.empty Undefined"

definition exampleRoom :: IPublicRoomsChunkRoom where
  "exampleRoom = \<lparr>room_id = js ''!a:example.org'', room_name = Str (js ''A''),
                   room_topic = Undefined\<rparr>"

text \<open>A response that is the last page: one room and no \<open>next_batch\<close>.\<close>

definition lastPage :: IPublicRoomsResponse where
  "lastPage = \<lparr>chunk = Some [exampleRoom], next_batch = Undefined\<rparr>"


section \<open>Invariants and example runs\<close>

text \<open>
  The timers of the filter between events: the ids handed out are positive, and
  a pending timer is the only one and is the one stored in \<open>filterTimeout\<close>.
\<close>

definition timersOk :: "world \<Rightarrow> bool" where
  "timersOk w \<longleftrightarrow>
     0 < nextTimer w \<and>
     (pendingTimers w = [] \<or>
      (\<exists>i due. pendingTimers w = [(i, due)] \<and> filterTimeout w = Some i \<and> 0 < i))"

text \<open>
  The menu between events: at most one call of \<open>onSpaceCreateClick\<close> has not
  ended, and none while \<open>busy\<close> is false.
\<close>

definition menuOk :: "SpaceCreateMenu \<Rightarrow> bool" where
  "menuOk m \<longleftrightarrow> inProgress m \<le> (if busy m then 1 else 0)"

text \<open>
  The directory after \<open>refreshRoomList\<close> ran twice before any response came
  (once from \<open>componentDidMount\<close>, once more, for instance from \<open>onFilterClear\<close>),
  and after the first of the two requests was answered with the last page.
\<close>

definition twoRequestsInFlight :: world where
  "twoRequestsInFlight = refreshRoomList (refreshRoomList exampleDirectory)"

definition afterFirstResponse :: world where
  "afterFirstResponse =
     fst (publicRoomsFulfilled (requests twoRequestsInFlight ! 0) lastPage twoRequestsInFlight)"


text \<open>
  A tile for feed 1 that is not mounted yet; every feed is a usermedia feed
  without listeners.
\<close>

definition exampleFeeds :: "nat \<Rightarrow> CallFeed" where
  "exampleFeeds i =
     \<lparr>purpose = Usermedia, stream = i, audioMuted = False, videoMuted = False,
      listeners = [], measuringVolumeActivity = False\<rparr>"

definition exampleTile :: VideoFeed where
  "exampleTile =
     \<lparr>feeds = exampleFeeds, props_feed = 1, state_audioMuted = False,
      state_videoMuted = False, element = None\<rparr>"

chapter \<open>Verified properties\<close>

section \<open>Properties of the room cells\<close>

lemma length_js [simp]: "length (js s) = length s"
  by (simp add: js_def)

text \<open>
  C9: the displayed room name has at most 83 code units and the topic handed to
  the sanitizer at most 803; a name of more than 80 code units is shown as its
  first 80 followed by three dots, a topic of more than 800 is passed on as its
  first 800 followed by three dots, and shorter ones are left as they are.
\<close>

theorem createRoomCells_lengths:
  "length (cell_name (createRoomCells alias unnamed room)) \<le> 83 \<and>
   length (cell_topic (createRoomCells alias unnamed room)) \<le> 803 \<and>
   cell_name (createRoomCells alias unnamed room) =
     (let n = or_string (room_name room) (or_string alias unnamed)
      in if 80 < length n then take 80 n @ js ''...'' else n) \<and>
   cell_topic (createRoomCells alias unnamed room) =
     (let t = or_string (room_topic room) []
      in if 800 < length t then take 800 t @ js ''...'' else t)"
  by (simp add: createRoomCells_def Let_def MAX_NAME_LENGTH_def MAX_TOPIC_LENGTH_def)

theorem createRoomCells_lengths_witness:
  "cell_name (createRoomCells Null (js ''Unnamed room'')
      \<lparr>room_id = js ''!r:hs'', room_name = Str (replicate 81 97), room_topic = Undefined\<rparr>)
     = replicate 80 97 @ js ''...''"
  using createRoomCells_lengths [of Null "js ''Unnamed room''"
      "\<lparr>room_id = js ''!r:hs'', room_name = Str (replicate 81 97), room_topic = Undefined\<rparr>"]
  by simp

section \<open>Properties of RoomDirectory: requests and responses\<close>

lemma getMoreRooms_request:
  assumes "getMoreRooms w0 = (w1, Awaiting r)"
  shows "client w0" and "sentFilterString r = filterString w0"
    and "sentRoomServer r = roomServer w0" and "sentNextBatch r = nextBatch w0"
    and "limit (opts r) = 20"
    and "since (opts r) = (if truthy (nextBatch w0) then nextBatch w0 else Undefined)"
    and "w1 = w0\<lparr>loading := True, requests := requests w0 @ [r]\<rparr>"
  using assms by (auto simp: getMoreRooms_def Let_def split: if_splits)

text \<open>
  What the test at the start of both callbacks achieves: a response to a request
  sent in \<open>w0\<close> that arrives in \<open>w\<close> changes nothing and yields \<open>false\<close> when the
  filter string, the room server or the token of \<open>w\<close> is unequal to that of
  \<open>w0\<close> in the sense of \<open>!=\<close>.
\<close>

lemma stale_response_discarded:
  assumes sent: "getMoreRooms w0 = (w1, Awaiting r)"
    and changed: "filterString w0 \<noteq> filterString w \<or> loose_neq (roomServer w0) (roomServer w) \<or>
                  loose_neq (nextBatch w0) (nextBatch w)"
  shows "publicRoomsFulfilled r data w = (w, False) \<and>
         publicRoomsRejected failedText unavailableText r message w = (w, Some False)"
proof -
  from changed have "changedSince r w"
    by (simp add: changedSince_def getMoreRooms_request(2-4) [OF sent])
  then show ?thesis
    by (simp add: publicRoomsFulfilled_def publicRoomsRejected_def)
qed

text \<open>
  C1: the claim asks that a response be discarded whenever the token recorded
  with the request differs from the current one. Two requests are in flight,
  both recorded with the token \<open>null\<close>. The first response is the last page, so it
  sets the token to \<open>undefined\<close>. When the second response arrives the recorded
  token \<open>null\<close> differs from the current token \<open>undefined\<close>, but \<open>null != undefined\<close>
  is false: the response is not discarded, its chunk is appended and the room is
  listed twice.
\<close>

theorem overlapping_responses_both_applied:
  "sentNextBatch (requests twoRequestsInFlight ! 1) = Null \<and>
   nextBatch afterFirstResponse = Undefined \<and>
   publicRooms afterFirstResponse = [exampleRoom] \<and>
   publicRoomsFulfilled (requests twoRequestsInFlight ! 1) lastPage afterFirstResponse
     = (afterFirstResponse\<lparr>publicRooms := [exampleRoom, exampleRoom]\<rparr>, False)"
  by (simp add: afterFirstResponse_def twoRequestsInFlight_def refreshRoomList_def
      getMoreRooms_def exampleDirectory_def initialWorld_def Let_def getItem_def
      publicRoomsFulfilled_def changedSince_def lastPage_def)








section \<open>Properties of RoomDirectory: option changes\<close>





section \<open>Properties of RoomDirectory: third-party location fields\<close>

lemma copyFields_None:
  "copyFields source fs acc = None \<longleftrightarrow> (\<exists>f \<in> set fs. source f = None)"
  by (induction fs arbitrary: acc) (auto split: option.splits)

lemma copyFields_Some:
  "copyFields source fs acc = Some m \<Longrightarrow>
     m k = (if k \<in> set fs then source k else acc k)"
  by (induction fs arbitrary: acc) (auto split: option.splits if_splits)

lemma getFieldsForThirdPartyLocation_absent:
  "location_fields protocol = None \<Longrightarrow>
     getFieldsForThirdPartyLocation userInput protocol inst = None"
  by (simp add: getFieldsForThirdPartyLocation_def)

text \<open>
  For a protocol with at least one location field, none of them named like a
  member of \<open>Object.prototype\<close>, the function does what its comment says: the
  result is \<open>null\<close> exactly when the instance lacks one of the fields before the
  last; otherwise the last field holds the user input and each other required
  field its value from the instance.
\<close>

lemma getFieldsForThirdPartyLocation_nonempty:
  assumes rf: "location_fields protocol = Some rf" and ne: "rf \<noteq> []"
  shows "(getFieldsForThirdPartyLocation userInput protocol inst = None \<longleftrightarrow>
            (\<exists>f \<in> set (butlast rf). instance_fields inst f = None)) \<and>
         (\<forall>m. getFieldsForThirdPartyLocation userInput protocol inst = Some m \<longrightarrow>
            (\<forall>k. m k = (if k = last rf then Some userInput
                        else if k \<in> set (butlast rf) then instance_fields inst k else None)))"
proof (cases "copyFields (instance_fields inst) (butlast rf) Map.empty")
  case None
  then have "getFieldsForThirdPartyLocation userInput protocol inst = None"
    by (simp add: getFieldsForThirdPartyLocation_def rf)
  moreover from None have "\<exists>f \<in> set (butlast rf). instance_fields inst f = None"
    by (simp add: copyFields_None)
  ultimately show ?thesis by simp
next
  case (Some fs)
  then have res: "getFieldsForThirdPartyLocation userInput protocol inst
      = Some (fs(last rf \<mapsto> userInput))"
    by (simp add: getFieldsForThirdPartyLocation_def rf ne)
  have "\<not> (\<exists>f \<in> set (butlast rf). instance_fields inst f = None)"
    using Some copyFields_None [of "instance_fields inst" "butlast rf" Map.empty] by simp
  moreover have "fs k = (if k \<in> set (butlast rf) then instance_fields inst k else None)" for k
    using copyFields_Some [OF Some, of k] by simp
  ultimately show ?thesis using res by auto
qed

text \<open>
  C7: for a protocol whose list of location fields is empty the function
  returns neither \<open>null\<close> nor a map over required fields: it returns an object
  whose only key is the string \<open>undefined\<close>, holding the user input.
\<close>

theorem empty_location_fields_undefined_key:
  "getFieldsForThirdPartyLocation (js ''#room'') \<lparr>location_fields = Some []\<rparr>
     \<lparr>instance_fields = Map.empty\<rparr>
   = Some [js ''undefined'' \<mapsto> js ''#room'']"
  by (simp add: getFieldsForThirdPartyLocation_def)

section \<open>Properties of RoomDirectory: the debounced filter\<close>

lemma timersIdle_Ok: "timersIdle w \<Longrightarrow> timersOk w"
  by (simp add: timersIdle_def timersOk_def)

lemma refreshRoomList_timers:
  "pendingTimers (refreshRoomList w) = pendingTimers w \<and>
   nextTimer (refreshRoomList w) = nextTimer w \<and>
   filterTimeout (refreshRoomList w) = filterTimeout w \<and>
   clock (refreshRoomList w) = clock w \<and>
   refreshCalls (refreshRoomList w) = Suc (refreshCalls w)"
  by (simp add: refreshRoomList_def getMoreRooms_def Let_def)

text \<open>A call cancels the pending timer and leaves exactly the new one, due in 700 ms.\<close>

lemma onFilterChange_timers:
  assumes "timersOk w"
  shows "pendingTimers (onFilterChange a w) = [(nextTimer w, clock w + 700)] \<and>
         filterTimeout (onFilterChange a w) = Some (nextTimer w) \<and>
         nextTimer (onFilterChange a w) = Suc (nextTimer w) \<and>
         clock (onFilterChange a w) = clock w \<and>
         refreshCalls (onFilterChange a w) = refreshCalls w"
  using assms
  by (auto simp: timersOk_def onFilterChange_def setTimeout_def clearTimeout_def Let_def
      split: option.splits)

lemma timerFires_not_due:
  assumes "\<forall>p \<in> set (pendingTimers w). clock w < snd p"
  shows "timerFires w = w"
proof -
  from assms have "filter (\<lambda>p. snd p \<le> clock w) (pendingTimers w) = []"
    by (auto simp: filter_empty_conv)
  then show ?thesis by (simp add: timerFires_def)
qed

lemma timerFires_due:
  assumes "pendingTimers w = [(i, due)]" and "due \<le> clock w"
  shows "pendingTimers (timerFires w) = [] \<and> filterTimeout (timerFires w) = None \<and>
         nextTimer (timerFires w) = nextTimer w \<and> clock (timerFires w) = clock w \<and>
         refreshCalls (timerFires w) = Suc (refreshCalls w)"
  using assms
  by (simp add: timerFires_def filterTimeoutCallback_def clearTimeout_def refreshRoomList_timers)

lemma timersOk_exec: "timersOk w \<Longrightarrow> timersOk (exec e w)"
proof (cases e)
  case (FilterChange a)
  assume "timersOk w"
  from onFilterChange_timers [OF this, of a] \<open>timersOk w\<close> show ?thesis
    by (simp add: FilterChange timersOk_def)
next
  case (Tick d)
  assume "timersOk w"
  then show ?thesis by (simp add: Tick timersOk_def)
next
  case TimerFires
  assume ok: "timersOk w"
  show ?thesis
  proof (cases "\<forall>p \<in> set (pendingTimers w). clock w < snd p")
    case True
    with ok show ?thesis by (simp add: TimerFires timerFires_not_due)
  next
    case False
    with ok obtain i due where p: "pendingTimers w = [(i, due)]" and d: "due \<le> clock w"
      by (auto simp: timersOk_def not_less)
    from timerFires_due [OF p d] ok show ?thesis
      by (simp add: TimerFires timersOk_def)
  qed
qed

lemma run_append: "run (es @ fs) w = run fs (run es w)"
  by (simp add: run_def)

lemma run_Cons: "run (e # es) w = run es (exec e w)"
  by (simp add: run_def)

lemma run_Nil: "run [] w = w"
  by (simp add: run_def)

lemma timersOk_run: "timersOk w \<Longrightarrow> timersOk (run es w)"
  by (induction es arbitrary: w) (simp_all add: run_Nil run_Cons timersOk_exec)

lemma pending_le_1: "timersOk w \<Longrightarrow> length (pendingTimers w) \<le> 1"
  by (auto simp: timersOk_def)

text \<open>
  During a burst the pending timer is never due: \<open>t\<close> milliseconds after the last
  call it is due in \<open>700 - t\<close> more.
\<close>

lemma burst_quiet:
  assumes "timersOk w" and "pendingTimers w = [(i, due)]" and "due + t = clock w + 700"
    and "t < 700" and "withinBurst t es"
  shows "refreshCalls (run es w) = refreshCalls w \<and> length (pendingTimers (run es w)) = 1"
  using assms
proof (induction es arbitrary: w i due t)
  case Nil
  then show ?case by (simp add: run_Nil)
next
  case (Cons e es)
  show ?case
  proof (cases e)
    case (FilterChange a)
    let ?w = "onFilterChange a w"
    from onFilterChange_timers [OF Cons.prems(1), of a]
    have p: "pendingTimers ?w = [(nextTimer w, clock ?w + 700)]"
      and r: "refreshCalls ?w = refreshCalls w" by simp_all
    have ok: "timersOk ?w" using timersOk_exec [OF Cons.prems(1), of e] FilterChange by simp
    from Cons.prems(5) FilterChange have b: "withinBurst 0 es" by simp
    from Cons.IH [OF ok p _ _ b] r show ?thesis
      by (simp add: run_Cons FilterChange)
  next
    case (Tick d)
    let ?w = "w\<lparr>clock := clock w + d\<rparr>"
    have ok: "timersOk ?w" using timersOk_exec [OF Cons.prems(1), of e] Tick by simp
    from Cons.prems(5) Tick have lt: "t + d < 700" and b: "withinBurst (t + d) es" by simp_all
    have p: "pendingTimers ?w = [(i, due)]" using Cons.prems(2) by simp
    have d: "due + (t + d) = clock ?w + 700" using Cons.prems(3) by simp
    from Cons.IH [OF ok p d lt b] show ?thesis
      by (simp add: run_Cons Tick)
  next
    case TimerFires
    have "clock w < due" using Cons.prems(3,4) by arith
    then have same: "timerFires w = w"
      using Cons.prems(2) by (simp add: timerFires_not_due)
    from Cons.prems(5) TimerFires have b: "withinBurst t es" by simp
    from Cons.IH [OF Cons.prems(1,2,3,4) b] same show ?thesis
      by (simp add: run_Cons TimerFires)
  qed
qed

text \<open>Without a further call, each pending timer causes at most one refresh.\<close>

lemma after_burst:
  assumes "timersOk w" and "noFilterChange es"
  shows "refreshCalls (run es w) \<le> refreshCalls w + length (pendingTimers w)"
  using assms
proof (induction es arbitrary: w)
  case Nil
  then show ?case by (simp add: run_Nil)
next
  case (Cons e es)
  show ?case
  proof (cases e)
    case (FilterChange a)
    with Cons.prems(2) show ?thesis by simp
  next
    case (Tick d)
    let ?w = "w\<lparr>clock := clock w + d\<rparr>"
    have ok: "timersOk ?w" using timersOk_exec [OF Cons.prems(1), of e] Tick by simp
    from Cons.prems(2) Tick have n: "noFilterChange es" by simp
    from Cons.IH [OF ok n] show ?thesis by (simp add: run_Cons Tick)
  next
    case TimerFires
    have ok: "timersOk (timerFires w)"
      using timersOk_exec [OF Cons.prems(1), of e] TimerFires by simp
    from Cons.prems(2) TimerFires have n: "noFilterChange es" by simp
    show ?thesis
    proof (cases "\<forall>p \<in> set (pendingTimers w). clock w < snd p")
      case True
      then have "timerFires w = w" by (rule timerFires_not_due)
      with Cons.IH [OF Cons.prems(1) n] show ?thesis by (simp add: run_Cons TimerFires)
    next
      case False
      with Cons.prems(1) obtain i due
        where p: "pendingTimers w = [(i, due)]" and d: "due \<le> clock w"
        by (auto simp: timersOk_def not_less)
      from timerFires_due [OF p d] Cons.IH [OF ok n] p show ?thesis
        by (simp add: run_Cons TimerFires)
    qed
  qed
qed

text \<open>
  C3: started with no timer pending, after any sequence of calls of
  \<open>onFilterChange\<close>, passing time and timer callbacks at most one timer is
  pending. A call leaves exactly the timer it schedules, due 700 ms later. While
  the calls follow each other by less than 700 ms \<open>refreshRoomList\<close> is not
  called, and whatever happens after the burst without a further call, it is
  called at most once; it is called once the timer fires 700 ms after the last
  call.
\<close>

theorem filter_debounced:
  assumes idle: "timersIdle w"
  shows "length (pendingTimers (run es w)) \<le> 1 \<and>
         pendingTimers (run (es @ [FilterChange a]) w)
           = [(nextTimer (run es w), clock (run es w) + 700)] \<and>
         (\<forall>burst. withinBurst 0 burst \<longrightarrow>
            refreshCalls (run (es @ FilterChange a # burst) w) = refreshCalls (run es w) \<and>
            (\<forall>rest. noFilterChange rest \<longrightarrow>
               refreshCalls (run (es @ FilterChange a # burst @ rest) w)
                 \<le> refreshCalls (run es w) + 1)) \<and>
         refreshCalls (run (es @ [FilterChange a, Tick 700, TimerFires]) w)
           = refreshCalls (run es w) + 1"
proof -
  let ?w = "run es w"
  let ?c = "onFilterChange a ?w"
  have ok: "timersOk ?w" using idle by (simp add: timersIdle_Ok timersOk_run)
  have okc: "timersOk ?c" using timersOk_exec [OF ok, of "FilterChange a"] by simp
  note c = onFilterChange_timers [OF ok, of a]
  from c have p: "pendingTimers ?c = [(nextTimer ?w, clock ?c + 700)]" by simp
  have one: "length (pendingTimers ?w) \<le> 1" using ok by (rule pending_le_1)
  have sched: "pendingTimers (run (es @ [FilterChange a]) w) = [(nextTimer ?w, clock ?w + 700)]"
    using c by (simp add: run_append run_Cons run_Nil)
  have quiet: "refreshCalls (run (es @ FilterChange a # burst) w) = refreshCalls ?w"
    and later: "refreshCalls (run (es @ FilterChange a # burst @ rest) w) \<le> refreshCalls ?w + 1"
    if b: "withinBurst 0 burst" and n: "noFilterChange rest" for burst rest
  proof -
    from burst_quiet [OF okc p _ _ b]
    have q: "refreshCalls (run burst ?c) = refreshCalls ?c"
      and l: "length (pendingTimers (run burst ?c)) = 1" by simp_all
    from q c show "refreshCalls (run (es @ FilterChange a # burst) w) = refreshCalls ?w"
      by (simp add: run_append run_Cons)
    have "timersOk (run burst ?c)" using okc by (rule timersOk_run)
    from after_burst [OF this n] q l c
    show "refreshCalls (run (es @ FilterChange a # burst @ rest) w) \<le> refreshCalls ?w + 1"
      by (simp add: run_append run_Cons)
  qed
  have fire: "refreshCalls (run (es @ [FilterChange a, Tick 700, TimerFires]) w)
      = refreshCalls ?w + 1"
  proof -
    let ?t = "?c\<lparr>clock := clock ?c + 700\<rparr>"
    have "pendingTimers ?t = [(nextTimer ?w, clock ?c + 700)]" using p by simp
    moreover have "clock ?c + 700 \<le> clock ?t" by simp
    ultimately have "refreshCalls (timerFires ?t) = Suc (refreshCalls ?t)"
      using timerFires_due by blast
    with c show ?thesis by (simp add: run_append run_Cons run_Nil)
  qed
  have quiet': "refreshCalls (run (es @ FilterChange a # burst) w) = refreshCalls ?w"
    if "withinBurst 0 burst" for burst
    using quiet [OF that, of "[]"] by simp
  from one sched quiet' later fire show ?thesis by blast
qed

lemma exampleDirectory_idle: "timersIdle exampleDirectory"
  by (simp add: timersIdle_def exampleDirectory_def initialWorld_def)

theorem filter_debounced_witness:
  "timersIdle exampleDirectory \<and>
   withinBurst 0 [Tick 300, FilterChange (Str (js ''ab'')), Tick 699, TimerFires] \<and>
   refreshCalls (run [FilterChange (Str (js ''a'')), Tick 300, FilterChange (Str (js ''ab'')),
                      Tick 699, TimerFires] exampleDirectory) = 0 \<and>
   refreshCalls (run [FilterChange (Str (js ''a'')), Tick 700, TimerFires] exampleDirectory) = 1"
  using filter_debounced [OF exampleDirectory_idle, of "[]" "Str (js ''a'')"]
    exampleDirectory_idle
  by (simp add: run_Nil exampleDirectory_def initialWorld_def)
section \<open>Properties of VideoFeed\<close>

text \<open>
  When the props change, \<open>this.props.feed\<close> is already the new feed, so the
  branch for the old feed acts on the new feed and the old one is left as it was.
\<close>

lemma updateFeed_keeps_old:
  assumes "old \<noteq> props_feed v"
  shows "feeds (updateFeed (Some old) (Some (props_feed v)) v) old = feeds v old"
  using assms
  by (simp add: updateFeed_def Let_def onFeed_def playMedia_def stopMedia_def
      split: option.splits)

text \<open>
  C2: a tile is mounted with the usermedia feed 1 and then given feed 2. The
  claim asks that feed 1 lose the two listeners and its volume measurement and
  that only feed 2 carry the pair. After \<open>componentDidUpdate\<close> feed 1 still has
  both listeners and still measures volume activity; feed 2 has the pair as well.
\<close>

theorem old_feed_keeps_listeners:
  "props_feed (receiveFeed 2 (componentDidMount exampleTile)) = 2 \<and>
   listeners (feeds (receiveFeed 2 (componentDidMount exampleTile)) 1) = listenerPair \<and>
   measuringVolumeActivity (feeds (receiveFeed 2 (componentDidMount exampleTile)) 1) \<and>
   listeners (feeds (receiveFeed 2 (componentDidMount exampleTile)) 2) = listenerPair"
  by (simp add: receiveFeed_def componentDidMount_def componentDidUpdate_def updateFeed_def
      getDerivedStateFromProps_def Let_def onFeed_def playMedia_def stopMedia_def
      exampleTile_def exampleFeeds_def addListener_def removeListener_def
      measureVolumeActivity_def listenerPair_def)

section \<open>Properties of SpaceCreateMenu\<close>

lemma filter_update_count:
  "i < length xs \<Longrightarrow>
     length (filter P (xs[i := x])) + (if P (xs ! i) then 1 else 0)
       = length (filter P xs) + (if P x then 1 else 0)"
proof (induction xs arbitrary: i)
  case Nil
  then show ?case by simp
next
  case (Cons y ys)
  show ?case
  proof (cases i)
    case 0
    then show ?thesis by simp
  next
    case (Suc j)
    with Cons.prems have "j < length ys" by simp
    from Cons.IH [OF this] Suc show ?thesis by simp
  qed
qed

lemma filter_length_mono:
  "(\<And>x. P x \<Longrightarrow> Q x) \<Longrightarrow> length (filter P xs) \<le> length (filter Q xs)"
  by (induction xs) auto

lemma inProgress_pos:
  assumes "i < length (invocations m)" and "\<not> finished (stage (invocations m ! i))"
  shows "0 < inProgress m"
proof -
  from assms
  have "invocations m ! i \<in> set (filter (\<lambda>c. \<not> finished (stage c)) (invocations m))"
    by simp
  then show ?thesis unfolding inProgress_def by (rule length_pos_if_in_set)
qed

lemma inProgress_update:
  assumes "i < length (invocations m)" and "\<not> finished (stage (invocations m ! i))"
  shows "inProgress (m\<lparr>invocations := (invocations m)[i := (invocations m ! i)\<lparr>stage := s\<rparr>]\<rparr>)
           = (if finished s then inProgress m - 1 else inProgress m)"
  using filter_update_count [OF assms(1), of "\<lambda>c. \<not> finished (stage c)"
      "(invocations m ! i)\<lparr>stage := s\<rparr>"] assms(2)
  by (simp add: inProgress_def split: if_splits)

text \<open>
  A call that resumes keeps the invariant, whether it ends (by returning, with
  any value of \<open>busy\<close>, or by throwing) or goes on.
\<close>

lemma menuOk_resume:
  assumes ok: "menuOk m" and i: "i < length (invocations m)"
    and s: "\<not> finished (stage (invocations m ! i))"
  shows "finished s' \<Longrightarrow>
         menuOk (m\<lparr>busy := b,
            invocations := (invocations m)[i := (invocations m ! i)\<lparr>stage := s'\<rparr>],
            effects := e\<rparr>)"
    and "finished s' \<Longrightarrow>
         menuOk (m\<lparr>invocations := (invocations m)[i := (invocations m ! i)\<lparr>stage := s'\<rparr>]\<rparr>)"
    and "\<not> finished s' \<Longrightarrow>
         menuOk (m\<lparr>invocations := (invocations m)[i := (invocations m ! i)\<lparr>stage := s'\<rparr>],
            effects := e\<rparr>)"
proof -
  from inProgress_pos [OF i s] ok have one: "inProgress m = 1" and b: "busy m"
    by (auto simp: menuOk_def split: if_splits)
  note u = inProgress_update [OF i s, of s']
  {
    assume "finished s'"
    with u one
    have z: "inProgress (m\<lparr>invocations :=
        (invocations m)[i := (invocations m ! i)\<lparr>stage := s'\<rparr>]\<rparr>) = 0"
      by simp
    then show "menuOk (m\<lparr>busy := b,
            invocations := (invocations m)[i := (invocations m ! i)\<lparr>stage := s'\<rparr>],
            effects := e\<rparr>)"
      by (simp add: menuOk_def inProgress_def)
    from z show
      "menuOk (m\<lparr>invocations := (invocations m)[i := (invocations m ! i)\<lparr>stage := s'\<rparr>]\<rparr>)"
      by (simp add: menuOk_def inProgress_def)
  }
  assume "\<not> finished s'"
  with u one
  have "inProgress (m\<lparr>invocations :=
      (invocations m)[i := (invocations m ! i)\<lparr>stage := s'\<rparr>]\<rparr>) = 1"
    by simp
  with b show "menuOk (m\<lparr>invocations := (invocations m)[i := (invocations m ! i)\<lparr>stage := s'\<rparr>],
            effects := e\<rparr>)"
    by (simp add: menuOk_def inProgress_def)
qed

lemma menuOk_click: "menuOk m \<Longrightarrow> menuOk (onSpaceCreateClick m)"
  by (auto simp: menuOk_def onSpaceCreateClick_def inProgress_def split: if_splits)

lemma menuOk_nameValidated: "menuOk m \<Longrightarrow> menuOk (nameValidated i ok m)"
proof -
  assume ok: "menuOk m"
  show ?thesis
  proof (cases "i < length (invocations m) \<and> stage (invocations m ! i) = AwaitNameValidation")
    case False
    with ok show ?thesis by (auto simp: nameValidated_def)
  next
    case True
    then have i: "i < length (invocations m)"
      and s: "\<not> finished (stage (invocations m ! i))"
      by simp_all
    from menuOk_resume [OF ok i s] True show ?thesis
      by (simp add: nameValidated_def callCreateRoom_def throwTypeError_def)
  qed
qed

lemma menuOk_aliasValidated: "menuOk m \<Longrightarrow> menuOk (aliasValidated i ok m)"
proof -
  assume ok: "menuOk m"
  show ?thesis
  proof (cases "i < length (invocations m) \<and> stage (invocations m ! i) = AwaitAliasValidation")
    case False
    with ok show ?thesis by (auto simp: aliasValidated_def)
  next
    case True
    then have i: "i < length (invocations m)"
      and s: "\<not> finished (stage (invocations m ! i))"
      by simp_all
    from menuOk_resume [OF ok i s] True show ?thesis
      by (simp add: aliasValidated_def callCreateRoom_def throwTypeError_def)
  qed
qed

lemma menuOk_createRoomSettled: "menuOk m \<Longrightarrow> menuOk (createRoomSettled i ok m)"
proof -
  assume ok: "menuOk m"
  show ?thesis
  proof (cases "i < length (invocations m) \<and> stage (invocations m ! i) = AwaitCreateRoom")
    case False
    with ok show ?thesis by (auto simp: createRoomSettled_def)
  next
    case True
    then have i: "i < length (invocations m)"
      and s: "\<not> finished (stage (invocations m ! i))"
      by simp_all
    from menuOk_resume(1) [OF ok i s, where b = "busy m" and s' = Returned] True show ?thesis
      by (simp add: createRoomSettled_def)
  qed
qed

lemma menuOk_step: "menuOk m \<Longrightarrow> menuOk (menuStep e m)"
  by (cases e)
    (simp_all add: menuOk_click menuOk_nameValidated menuOk_aliasValidated
      menuOk_createRoomSettled, simp add: menuOk_def inProgress_def)

lemma menuOk_run: "menuOk m \<Longrightarrow> menuOk (menuRun es m)"
  by (induction es arbitrary: m) (simp_all add: menuRun_def menuOk_step)

lemma menuOk_initial: "menuOk initialMenu"
  by (simp add: menuOk_def initialMenu_def inProgress_def)

lemma inFlight_le_inProgress: "createRoomInFlight m \<le> inProgress m"
  unfolding createRoomInFlight_def inProgress_def
  by (rule filter_length_mono) simp

text \<open>
  What holds of the handler: while \<open>busy\<close> is true a call does nothing but
  \<open>preventDefault\<close>; otherwise, from the rendered form, it sets \<open>busy\<close> before it
  validates the name. A failed validation resets \<open>busy\<close> when the field it then
  focuses is still mounted. After any sequence of events at most one
  \<open>createRoom\<close> call is in flight, and \<open>busy\<close> is true while one is.
\<close>

lemma click_guard_and_reset:
  "(busy m \<longrightarrow> onSpaceCreateClick m = m\<lparr>effects := effects m @ [PreventDefault]\<rparr>) \<and>
   (\<not> busy m \<and> nameFieldMounted m \<longrightarrow>
      busy (onSpaceCreateClick m) \<and>
      effects (onSpaceCreateClick m) = effects m @ [PreventDefault, SetBusy True, ValidateName]) \<and>
   (\<forall>i. i < length (invocations m) \<and> stage (invocations m ! i) = AwaitNameValidation \<and>
        nameFieldMounted m \<longrightarrow>
      \<not> busy (nameValidated i False m)) \<and>
   (\<forall>i. i < length (invocations m) \<and> stage (invocations m ! i) = AwaitAliasValidation \<and>
        aliasFieldMounted m \<longrightarrow>
      \<not> busy (aliasValidated i False m)) \<and>
   createRoomInFlight (menuRun es initialMenu) \<le> 1 \<and>
   (createRoomInFlight (menuRun es initialMenu) = 1 \<longrightarrow> busy (menuRun es initialMenu))"
proof -
  have "menuOk (menuRun es initialMenu)"
    using menuOk_initial by (rule menuOk_run)
  with inFlight_le_inProgress [of "menuRun es initialMenu"]
  have "createRoomInFlight (menuRun es initialMenu) \<le> 1"
    and "createRoomInFlight (menuRun es initialMenu) = 1 \<longrightarrow> busy (menuRun es initialMenu)"
    by (auto simp: menuOk_def split: if_splits)
  then show ?thesis
    by (simp add: onSpaceCreateClick_def nameValidated_def aliasValidated_def)
qed

text \<open>
  A failed alias validation leaves \<open>busy\<close> as it is when the alias field is no
  longer mounted, whatever the state otherwise.
\<close>

lemma aliasValidated_unmounted_keeps_busy:
  assumes "\<not> aliasFieldMounted m"
  shows "busy (aliasValidated i False m) = busy m \<and>
         effects (aliasValidated i False m) = effects m"
  using assms by (simp add: aliasValidated_def throwTypeError_def)

text \<open>
  C10: the claim asks that \<open>busy\<close> be reset on every path on which a validation
  fails. The user submits a public space, the name is valid, and while the alias
  is validated the user goes back, which unmounts the form. When the alias
  validation then fails, \<open>spaceAliasField.current.focus()\<close> throws before
  \<open>setBusy(false)\<close> is reached: the call has ended, no \<open>SetBusy False\<close> was logged
  and \<open>busy\<close> is still true. A click after the form is shown again does nothing
  but \<open>preventDefault\<close>.
\<close>

theorem busy_stuck_after_go_back:
  "busy (menuRun goBackDuringAliasValidation initialMenu) \<and>
   map stage (invocations (menuRun goBackDuringAliasValidation initialMenu)) = [Thrown] \<and>
   effects (menuRun goBackDuringAliasValidation initialMenu)
     = [PreventDefault, SetBusy True, ValidateName, ValidateAlias] \<and>
   effects (menuRun (goBackDuringAliasValidation @ [SetVisibility (Some Public), Click])
              initialMenu)
     = [PreventDefault, SetBusy True, ValidateName, ValidateAlias, PreventDefault]"
  by (simp add: goBackDuringAliasValidation_def menuRun_def initialMenu_def
      onSpaceCreateClick_def nameValidated_def aliasValidated_def throwTypeError_def
      nameFieldMounted_def aliasFieldMounted_def)

section \<open>Properties of nameToAlias\<close>

lemma hyphen_not_space: "\<not> isWhiteSpace 45"
  by (simp add: isWhiteSpace_def)

lemma replaceWhitespaceRuns_no_space:
  "c \<in> set (replaceWhitespaceRuns s) \<Longrightarrow> \<not> isWhiteSpace c"
proof (induction s arbitrary: c rule: replaceWhitespaceRuns.induct)
  case 1
  then show ?case by simp
next
  case (2 d ds)
  show ?case
  proof (cases "isWhiteSpace d")
    case True
    with 2 show ?thesis by (auto simp: hyphen_not_space)
  next
    case False
    with 2 show ?thesis by auto
  qed
qed

lemma replaceWhitespaceRuns_upper:
  "c \<in> set (replaceWhitespaceRuns s) \<Longrightarrow> isAsciiUpper c \<Longrightarrow> c \<in> set s"
proof (induction s arbitrary: c rule: replaceWhitespaceRuns.induct)
  case 1
  then show ?case by simp
next
  case (2 d ds)
  show ?case
  proof (cases "isWhiteSpace d")
    case True
    with 2 have "c = 45 \<or> c \<in> set (replaceWhitespaceRuns (dropWhile isWhiteSpace ds))"
      by simp
    then show ?thesis
    proof
      assume "c = 45"
      with \<open>isAsciiUpper c\<close> show ?thesis by (simp add: isAsciiUpper_def)
    next
      assume "c \<in> set (replaceWhitespaceRuns (dropWhile isWhiteSpace ds))"
      with 2 True have "c \<in> set (dropWhile isWhiteSpace ds)" by blast
      then have "c \<in> set ds" by (rule set_dropWhileD)
      then show ?thesis by simp
    qed
  next
    case False
    with 2 show ?thesis by auto
  qed
qed

lemma replaceWhitespaceRuns_id:
  "\<forall>c \<in> set s. \<not> isWhiteSpace c \<Longrightarrow> replaceWhitespaceRuns s = s"
  by (induction s) simp_all

lemma replaceWhitespaceRuns_run:
  assumes "ws \<noteq> []" and "\<forall>c \<in> set ws. isWhiteSpace c" and "b = [] \<or> \<not> isWhiteSpace (hd b)"
  shows "replaceWhitespaceRuns (ws @ b) = 45 # replaceWhitespaceRuns b"
proof -
  from assms(1) obtain c cs where ws: "ws = c # cs" by (cases ws) auto
  with assms(2) have c: "isWhiteSpace c" and cs: "\<forall>x \<in> set cs. isWhiteSpace x" by simp_all
  from cs have "dropWhile isWhiteSpace (cs @ b) = dropWhile isWhiteSpace b"
    by simp
  also from assms(3) have "dropWhile isWhiteSpace b = b" by (cases b) auto
  finally show ?thesis using c by (simp add: ws)
qed

lemma replaceWhitespaceRuns_append:
  assumes "a = [] \<or> \<not> isWhiteSpace (last a)"
  shows "replaceWhitespaceRuns (a @ rest) = replaceWhitespaceRuns a @ replaceWhitespaceRuns rest"
  using assms
proof (induction a rule: replaceWhitespaceRuns.induct)
  case 1
  then show ?case by simp
next
  case (2 c cs)
  show ?case
  proof (cases "isWhiteSpace c")
    case False
    from 2 False have "cs = [] \<or> \<not> isWhiteSpace (last cs)" by (auto split: if_splits)
    with 2 False show ?thesis by simp
  next
    case True
    with 2 have l: "\<not> isWhiteSpace (last cs)" and ne: "cs \<noteq> []" by (auto split: if_splits)
    then have mem: "last cs \<in> set cs" by simp
    from mem l have d: "dropWhile isWhiteSpace (cs @ rest) = dropWhile isWhiteSpace cs @ rest"
      by (rule dropWhile_append1)
    from mem l have dne: "dropWhile isWhiteSpace cs \<noteq> []"
      by auto
    have "cs = takeWhile isWhiteSpace cs @ dropWhile isWhiteSpace cs" by simp
    then have "last cs = last (takeWhile isWhiteSpace cs @ dropWhile isWhiteSpace cs)" by simp
    also have "\<dots> = last (dropWhile isWhiteSpace cs)" using dne by (rule last_appendR)
    finally have "last (dropWhile isWhiteSpace cs) = last cs" by simp
    with l dne
    have "dropWhile isWhiteSpace cs = [] \<or> \<not> isWhiteSpace (last (dropWhile isWhiteSpace cs))"
      by simp
    from "2.IH"(1) [OF True this] True d show ?thesis by simp
  qed
qed

text \<open>A maximal run of white space becomes one hyphen; the rest is kept.\<close>

lemma whitespace_run_to_hyphen:
  assumes "a = [] \<or> \<not> isWhiteSpace (last a)" and "ws \<noteq> []" and "\<forall>c \<in> set ws. isWhiteSpace c"
    and "b = [] \<or> \<not> isWhiteSpace (hd b)"
  shows "replaceWhitespaceRuns (a @ ws @ b)
           = replaceWhitespaceRuns a @ 45 # replaceWhitespaceRuns b"
  using replaceWhitespaceRuns_append [OF assms(1), of "ws @ b"]
    replaceWhitespaceRuns_run [OF assms(2,3,4)]
  by simp

lemma asciiLower_no_upper: "\<forall>s. \<forall>c \<in> set (asciiLower s). \<not> isAsciiUpper c"
  by (auto simp: asciiLower_def isAsciiUpper_def)

text \<open>
  C8: given that \<open>toLowerCase\<close> yields no letter A to Z, \<open>nameToAlias\<close> returns
  \<open>#\<close>, a localpart, \<open>:\<close> and the domain; every code unit of the localpart is in
  \<open>[a-z0-9_-]\<close>, so none is white space or an upper-case letter. The localpart
  is what the pattern keeps of the trimmed, lower-cased name in which every
  maximal run of white space has become one hyphen.
\<close>

theorem nameToAlias_form:
  assumes lower: "\<forall>s. \<forall>c \<in> set (toLowerCase s). \<not> isAsciiUpper c"
  shows "nameToAlias toLowerCase nm domain = 35 # localpartOf toLowerCase nm @ 58 # domain \<and>
         (\<forall>c \<in> set (localpartOf toLowerCase nm).
             isAliasChar c \<and> \<not> isWhiteSpace c \<and> \<not> isAsciiUpper c) \<and>
         localpartOf toLowerCase nm
           = filter isAliasChar (replaceWhitespaceRuns (toLowerCase (trim nm))) \<and>
         (\<forall>a ws b. (a = [] \<or> \<not> isWhiteSpace (last a)) \<and> ws \<noteq> [] \<and>
               (\<forall>c \<in> set ws. isWhiteSpace c) \<and> (b = [] \<or> \<not> isWhiteSpace (hd b)) \<longrightarrow>
             replaceWhitespaceRuns (a @ ws @ b)
               = replaceWhitespaceRuns a @ 45 # replaceWhitespaceRuns b) \<and>
         (\<forall>s. (\<forall>c \<in> set s. \<not> isWhiteSpace c) \<longrightarrow> replaceWhitespaceRuns s = s)"
proof -
  have form: "nameToAlias toLowerCase nm domain = 35 # localpartOf toLowerCase nm @ 58 # domain"
    by (simp add: nameToAlias_def js_def)
  have noup: "\<not> isAsciiUpper c"
    if "c \<in> set (replaceWhitespaceRuns (toLowerCase (trim nm)))" for c
  proof
    assume "isAsciiUpper c"
    with that have "c \<in> set (toLowerCase (trim nm))"
      by (rule replaceWhitespaceRuns_upper)
    with lower \<open>isAsciiUpper c\<close> show False by blast
  qed
  then have eq: "localpartOf toLowerCase nm
      = filter isAliasChar (replaceWhitespaceRuns (toLowerCase (trim nm)))"
    unfolding localpartOf_def by (intro filter_cong refl) (simp add: keptByPattern_def)
  have chars: "isAliasChar c \<and> \<not> isWhiteSpace c \<and> \<not> isAsciiUpper c"
    if "c \<in> set (localpartOf toLowerCase nm)" for c
    using that noup [of c] by (auto simp: eq dest: replaceWhitespaceRuns_no_space)
  from form chars eq whitespace_run_to_hyphen replaceWhitespaceRuns_id show ?thesis
    by blast
qed

theorem nameToAlias_form_witness:
  "nameToAlias asciiLower (js '' My  Space! '') (js ''hs.org'') = js ''#my-space:hs.org'' \<and>
   localpartOf asciiLower (js '' My  Space! '') = js ''my-space''"
  using nameToAlias_form [OF asciiLower_no_upper, of "js '' My  Space! ''" "js ''hs.org''"]
  by (simp add: nameToAlias_def localpartOf_def trim_def asciiLower_def js_def isWhiteSpace_def
      keptByPattern_def isAliasChar_def isAsciiUpper_def)

section \<open>Properties of LeftPanelLiveShareWarning\<close>

text \<open>
  C5: the component renders nothing when live location is not monitored, and
  otherwise the warning element, whose content is the icon when minimized and the
  text when not.
\<close>

theorem LeftPanelLiveShareWarning_renders:
  "(\<not> monitoring \<longrightarrow> LeftPanelLiveShareWarning txt monitoring isMinimized = None) \<and>
   (monitoring \<longrightarrow>
      (\<exists>d. LeftPanelLiveShareWarning txt monitoring isMinimized = Some d \<and>
           child d = (if isMinimized = Some True then LiveLocationIcon 10 else WarningText txt)))"
  by (simp add: LeftPanelLiveShareWarning_def)

theorem LeftPanelLiveShareWarning_renders_witness:
  "LeftPanelLiveShareWarning (js ''sharing'') False (Some True) = None \<and>
   (\<exists>d. LeftPanelLiveShareWarning (js ''sharing'') True (Some True) = Some d \<and>
        child d = LiveLocationIcon 10) \<and>
   (\<exists>d. LeftPanelLiveShareWarning (js ''sharing'') True None = Some d \<and>
        child d = WarningText (js ''sharing''))"
  using LeftPanelLiveShareWarning_renders [of False "js ''sharing''" "Some True"]
    LeftPanelLiveShareWarning_renders [of True "js ''sharing''" "Some True"]
    LeftPanelLiveShareWarning_renders [of True "js ''sharing''" None]
  by simp

end
